theory Spec2Isabelle
  imports Complex_Main
begin

section \<open>Values: Python floats with their special values\<close>

text \<open>
  The simulation computes with Python and numpy floating-point numbers. The event list
  starts with \<^verbatim>\<open>np.inf\<close> in its second slot, and \<^verbatim>\<open>-np.log(u) / lam\<close> is infinite for
  \<^verbatim>\<open>u = 0\<close>, so the infinities and the not-a-number value are part of the model. Finite
  values are modelled as real numbers: rounding is not modelled.
\<close>

datatype pyfloat = NInf | Fin real | PInf | NaN

text \<open>Comparisons: every comparison with \<open>NaN\<close> is false.\<close>

fun fl_le :: "pyfloat \<Rightarrow> pyfloat \<Rightarrow> bool" where
  "fl_le NaN y = False"
| "fl_le x NaN = False"
| "fl_le NInf y = True"
| "fl_le x PInf = True"
| "fl_le (Fin a) (Fin b) = (a \<le> b)"
| "fl_le (Fin a) NInf = False"
| "fl_le PInf y = False"

fun fl_lt :: "pyfloat \<Rightarrow> pyfloat \<Rightarrow> bool" where
  "fl_lt NaN y = False"
| "fl_lt x NaN = False"
| "fl_lt (Fin a) (Fin b) = (a < b)"
| "fl_lt NInf NInf = False"
| "fl_lt NInf y = True"
| "fl_lt PInf y = False"
| "fl_lt (Fin a) PInf = True"
| "fl_lt (Fin a) NInf = False"

definition fl_gt :: "pyfloat \<Rightarrow> pyfloat \<Rightarrow> bool" where
  "fl_gt x y = fl_lt y x"

fun fl_eq :: "pyfloat \<Rightarrow> pyfloat \<Rightarrow> bool" where
  "fl_eq NaN y = False"
| "fl_eq x NaN = False"
| "fl_eq x y = (x = y)"

text \<open>Addition: opposite infinities give \<open>NaN\<close>.\<close>

fun fl_add :: "pyfloat \<Rightarrow> pyfloat \<Rightarrow> pyfloat" where
  "fl_add NaN y = NaN"
| "fl_add x NaN = NaN"
| "fl_add (Fin a) (Fin b) = Fin (a + b)"
| "fl_add PInf NInf = NaN"
| "fl_add NInf PInf = NaN"
| "fl_add PInf y = PInf"
| "fl_add NInf y = NInf"
| "fl_add (Fin a) PInf = PInf"
| "fl_add (Fin a) NInf = NInf"

fun fl_neg :: "pyfloat \<Rightarrow> pyfloat" where
  "fl_neg NaN = NaN"
| "fl_neg (Fin a) = Fin (- a)"
| "fl_neg PInf = NInf"
| "fl_neg NInf = PInf"

text \<open>
  \<^verbatim>\<open>np.log\<close> of a finite number: minus infinity at zero, not-a-number below zero (numpy
  warns and does not raise).
\<close>

definition np_log :: "real \<Rightarrow> pyfloat" where
  "np_log u = (if u < 0 then NaN else if u = 0 then NInf else Fin (ln u))"

text \<open>
  Division of a numpy float by a finite number. Numpy does not raise on a zero divisor:
  the quotient is an infinity with the sign of the dividend, or not-a-number for \<open>0 / 0\<close>.
\<close>

fun fl_div :: "pyfloat \<Rightarrow> real \<Rightarrow> pyfloat" where
  "fl_div NaN r = NaN"
| "fl_div (Fin x) r =
     (if r \<noteq> 0 then Fin (x / r)
      else if 0 < x then PInf else if x < 0 then NInf else NaN)"
| "fl_div PInf r = (if r < 0 then NInf else PInf)"
| "fl_div NInf r = (if r < 0 then PInf else NInf)"

section \<open>The random source and the generators\<close>

text \<open>
  \<^verbatim>\<open>np.random.rand()\<close> is the only source of randomness. A realization of it is a sequence
  \<open>rng\<close>: the call number \<open>k\<close> of a run returns \<open>rng k\<close>. Every function that draws takes the
  position \<open>k\<close> and returns the position after its draws.
\<close>

type_synonym rand_source = "nat \<Rightarrow> real"

definition exponential_rng :: "real \<Rightarrow> rand_source \<Rightarrow> nat \<Rightarrow> pyfloat \<times> nat" where
  "exponential_rng lam rng k = (fl_div (fl_neg (np_log (rng k))) lam, Suc k)"

text \<open>
  \<^verbatim>\<open>Generation.generate\<close> adds an exponential draw to the object's \<^verbatim>\<open>time\<close> field, which
  starts at 0; the model passes that field.
\<close>

definition generate :: "real \<Rightarrow> pyfloat \<Rightarrow> rand_source \<Rightarrow> nat \<Rightarrow> pyfloat \<times> nat" where
  "generate lam gtime rng k =
     (fl_add gtime (fst (exponential_rng lam rng k)), snd (exponential_rng lam rng k))"

text \<open>\<^verbatim>\<open>Arrival.travel\<close>: \<^verbatim>\<open>tt = t0 * np.random.rand()\<close>.\<close>

definition travel :: "real \<Rightarrow> rand_source \<Rightarrow> nat \<Rightarrow> pyfloat \<times> nat" where
  "travel t0 rng k = (Fin (t0 * rng k), Suc k)"

text \<open>\<^verbatim>\<open>Departure.depart\<close>: \<^verbatim>\<open>time = exponential_rng(mu)\<close>.\<close>

definition depart :: "real \<Rightarrow> rand_source \<Rightarrow> nat \<Rightarrow> pyfloat \<times> nat" where
  "depart mu rng k = exponential_rng mu rng k"

section \<open>The scenario\<close>

record Scenario =
  demand_duration :: real
  t0 :: real
  lam :: real
  mu :: real

text \<open>\<^verbatim>\<open>Scenario.__init__\<close> stores its four arguments.\<close>

definition Scenario_init :: "real \<Rightarrow> real \<Rightarrow> real \<Rightarrow> real \<Rightarrow> Scenario" where
  "Scenario_init dd t0' lam' mu' =
     \<lparr>demand_duration = dd, t0 = t0', lam = lam', mu = mu'\<rparr>"

section \<open>Pre-generation of the arrival instants\<close>

text \<open>
  One pass of the first \<^verbatim>\<open>while True\<close> loop up to \<^verbatim>\<open>ta = tg + tt\<close>: the new generation
  time, the arrival instant and the position of the random source after the two draws.
\<close>

definition next_arrival ::
  "Scenario \<Rightarrow> rand_source \<Rightarrow> pyfloat \<Rightarrow> nat \<Rightarrow> pyfloat \<times> pyfloat \<times> nat" where
  "next_arrival sc rng gtime k =
     (let tg = fst (generate (lam sc) gtime rng k);
          k1 = snd (generate (lam sc) gtime rng k);
          tt = fst (travel (t0 sc) rng k1);
          k2 = snd (travel (t0 sc) rng k1)
      in (tg, fl_add tg tt, k2))"

text \<open>
  The loop appends the instant and then tests it, so the instant that exceeds
  \<^verbatim>\<open>demand_duration\<close> is in the list when the loop breaks. The loop has no bound on its
  number of passes: not returning is \<open>None\<close>.
\<close>

partial_function (option) pregen ::
  "Scenario \<Rightarrow> rand_source \<Rightarrow> pyfloat \<Rightarrow> pyfloat list \<Rightarrow> nat \<Rightarrow> (pyfloat list \<times> nat) option"
where
  "pregen sc rng gtime Ts k =
     (if fl_gt (fst (snd (next_arrival sc rng gtime k))) (Fin (demand_duration sc))
      then Some (Ts @ [fst (snd (next_arrival sc rng gtime k))],
                 snd (snd (next_arrival sc rng gtime k)))
      else pregen sc rng (fst (next_arrival sc rng gtime k))
             (Ts @ [fst (snd (next_arrival sc rng gtime k))])
             (snd (snd (next_arrival sc rng gtime k))))"

text \<open>
  \<^verbatim>\<open>Ts.sort()\<close>: Python's sort is stable and compares with \<^verbatim>\<open><\<close> only. On a list without
  \<open>NaN\<close> every such sort returns the same list as this insertion sort.
\<close>

fun insort_pyfloat :: "pyfloat \<Rightarrow> pyfloat list \<Rightarrow> pyfloat list" where
  "insort_pyfloat x [] = [x]"
| "insort_pyfloat x (y # ys) =
     (if fl_lt y x then y # insort_pyfloat x ys else x # y # ys)"

fun sort_pyfloat :: "pyfloat list \<Rightarrow> pyfloat list" where
  "sort_pyfloat [] = []"
| "sort_pyfloat (x # xs) = insort_pyfloat x (sort_pyfloat xs)"

section \<open>The state of the main loop\<close>

text \<open>
  The local variables of \<^verbatim>\<open>simulate\<close>: \<open>times_v\<close>, \<open>t_v\<close> and \<open>n_v\<close> are \<^verbatim>\<open>times\<close>, \<^verbatim>\<open>t\<close>
  and \<^verbatim>\<open>n\<close>; \<open>EL0\<close> and \<open>EL1\<close> are \<^verbatim>\<open>EL[0]\<close> and \<^verbatim>\<open>EL[1]\<close>; \<open>Ts_it\<close> is what the iterator
  \<^verbatim>\<open>Ts\<close> has not yet returned; \<open>rk\<close> is the position of the random source.
\<close>

record sim =
  times_v :: "pyfloat list"
  queues :: "int list"
  As :: "pyfloat list"
  Ds :: "pyfloat list"
  t_v :: pyfloat
  NA :: int
  ND :: int
  n_v :: int
  EL0 :: pyfloat
  EL1 :: pyfloat
  Ts_it :: "pyfloat list"
  rk :: nat

datatype error = StopIteration

datatype outcome = Continue sim | Break sim | Raise error

definition init_sim :: "pyfloat \<Rightarrow> pyfloat list \<Rightarrow> nat \<Rightarrow> sim" where
  "init_sim T0 rest k =
     \<lparr>times_v = [Fin 0], queues = [0], As = [], Ds = [], t_v = Fin 0, NA = 0, ND = 0,
      n_v = 0, EL0 = T0, EL1 = PInf, Ts_it = rest, rk = k\<rparr>"

text \<open>
  Pre-generation, sort, \<^verbatim>\<open>iter\<close> and the first \<^verbatim>\<open>next(Ts)\<close>, which raises
  \<^verbatim>\<open>StopIteration\<close> on an empty list.
\<close>

definition start :: "Scenario \<Rightarrow> rand_source \<Rightarrow> (error + sim) option" where
  "start sc rng =
     (case pregen sc rng (Fin 0) [] 0 of
        None \<Rightarrow> None
      | Some (Ts, k) \<Rightarrow>
          (case sort_pyfloat Ts of
             [] \<Rightarrow> Some (Inl StopIteration)
           | T0 # rest \<Rightarrow> Some (Inr (init_sim T0 rest k))))"

section \<open>The main loop\<close>

text \<open>
  The three places that process a departure (second branch, head of the third branch,
  body of the drain loop) run the same statements:
  \<^verbatim>\<open>t = EL[1]; n -= 1; ND += 1; times.append(t); Ds.append(t); queues.append(n)\<close>.
\<close>

definition depart_now :: "sim \<Rightarrow> sim" where
  "depart_now s =
     s\<lparr>t_v := EL1 s, n_v := n_v s - 1, ND := ND s + 1,
       times_v := times_v s @ [EL1 s], Ds := Ds s @ [EL1 s],
       queues := queues s @ [n_v s - 1]\<rparr>"

text \<open>
  The three places that schedule a departure run
  \<^verbatim>\<open>departure.depart(); td = t + departure.time; EL[1] = td\<close>.
\<close>

definition schedule_departure :: "Scenario \<Rightarrow> rand_source \<Rightarrow> sim \<Rightarrow> sim" where
  "schedule_departure sc rng s =
     s\<lparr>EL1 := fl_add (t_v s) (fst (depart (mu sc) rng (rk s))),
       rk := snd (depart (mu sc) rng (rk s))\<rparr>"

text \<open>First branch: an arrival. \<^verbatim>\<open>next(Ts)\<close> raises on an exhausted iterator.\<close>

definition phase_A :: "Scenario \<Rightarrow> rand_source \<Rightarrow> sim \<Rightarrow> outcome" where
  "phase_A sc rng s =
     (case Ts_it s of
        [] \<Rightarrow> Raise StopIteration
      | Tt # rest \<Rightarrow>
          (let s1 = s\<lparr>t_v := EL0 s, n_v := n_v s + 1, NA := NA s + 1,
                      times_v := times_v s @ [EL0 s], As := As s @ [EL0 s],
                      queues := queues s @ [n_v s + 1],
                      EL0 := Tt, Ts_it := rest\<rparr>
           in if n_v s1 = 1 then Continue (schedule_departure sc rng s1)
              else Continue s1))"

text \<open>Second branch: a departure before the horizon.\<close>

definition phase_B :: "Scenario \<Rightarrow> rand_source \<Rightarrow> sim \<Rightarrow> outcome" where
  "phase_B sc rng s =
     (let s1 = depart_now s
      in if 0 < n_v s1 then Continue (schedule_departure sc rng s1)
         else Continue (s1\<lparr>EL1 := PInf\<rparr>))"

text \<open>The inner loop \<^verbatim>\<open>while n > 0\<close> of the third branch.\<close>

function drain :: "Scenario \<Rightarrow> rand_source \<Rightarrow> sim \<Rightarrow> sim" where
  "drain sc rng s =
     (if 0 < n_v s then drain sc rng (depart_now (schedule_departure sc rng s)) else s)"
  by pat_completeness auto
termination
  by (relation "measure (\<lambda>(sc, rng, s). nat (n_v s))")
     (auto simp: depart_now_def schedule_departure_def)

declare drain.simps [simp del]

text \<open>Third branch: drain the queue, or leave the loop when it is empty.\<close>

definition phase_C :: "Scenario \<Rightarrow> rand_source \<Rightarrow> sim \<Rightarrow> outcome" where
  "phase_C sc rng s =
     (if 0 < n_v s then Continue (drain sc rng (depart_now s)) else Break s)"

datatype phase = PhaseA | PhaseB | PhaseC | NoPhase

text \<open>The conditions of the \<^verbatim>\<open>if\<close> / \<^verbatim>\<open>elif\<close> / \<^verbatim>\<open>elif\<close> chain, in the order of the code.\<close>

definition phase_of :: "Scenario \<Rightarrow> sim \<Rightarrow> phase" where
  "phase_of sc s =
     (if fl_le (EL0 s) (EL1 s) \<and> fl_le (EL0 s) (Fin (demand_duration sc)) then PhaseA
      else if fl_lt (EL1 s) (EL0 s) \<and> fl_lt (EL1 s) (Fin (demand_duration sc)) then PhaseB
      else if fl_gt (EL0 s) (Fin (demand_duration sc))
              \<or> fl_gt (EL1 s) (Fin (demand_duration sc)) then PhaseC
      else NoPhase)"

text \<open>
  One pass of \<^verbatim>\<open>while True\<close>. When no condition holds the pass changes nothing and the
  loop goes on.
\<close>

definition step :: "Scenario \<Rightarrow> rand_source \<Rightarrow> sim \<Rightarrow> outcome" where
  "step sc rng s =
     (case phase_of sc s of
        PhaseA \<Rightarrow> phase_A sc rng s
      | PhaseB \<Rightarrow> phase_B sc rng s
      | PhaseC \<Rightarrow> phase_C sc rng s
      | NoPhase \<Rightarrow> Continue s)"

partial_function (option) main_loop ::
  "Scenario \<Rightarrow> rand_source \<Rightarrow> sim \<Rightarrow> (error + sim) option"
where
  "main_loop sc rng s =
     (case step sc rng s of
        Continue s' \<Rightarrow> main_loop sc rng s'
      | Break s' \<Rightarrow> Some (Inr s')
      | Raise e \<Rightarrow> Some (Inl e))"

text \<open>The first \<open>m\<close> passes of the main loop, for statements about the states it visits.\<close>

fun passes :: "nat \<Rightarrow> Scenario \<Rightarrow> rand_source \<Rightarrow> sim \<Rightarrow> outcome" where
  "passes 0 sc rng s = Continue s"
| "passes (Suc m) sc rng s =
     (case step sc rng s of
        Continue s' \<Rightarrow> passes m sc rng s'
      | Break s' \<Rightarrow> Break s'
      | Raise e \<Rightarrow> Raise e)"

section \<open>simulate\<close>

text \<open>
  The result is \<^verbatim>\<open>(times, queues, np.array(As), np.array(Ds))\<close>; \<open>None\<close> is a run that
  does not return.
\<close>

definition simulate ::
  "Scenario \<Rightarrow> rand_source \<Rightarrow>
     (error + pyfloat list \<times> int list \<times> pyfloat list \<times> pyfloat list) option" where
  "simulate sc rng =
     (case start sc rng of
        None \<Rightarrow> None
      | Some (Inl e) \<Rightarrow> Some (Inl e)
      | Some (Inr s0) \<Rightarrow>
          (case main_loop sc rng s0 of
             None \<Rightarrow> None
           | Some (Inl e) \<Rightarrow> Some (Inl e)
           | Some (Inr s) \<Rightarrow> Some (Inr (times_v s, queues s, As s, Ds s))))"

section \<open>Predicates on states\<close>

text \<open>
  Some instant that the arrival slot holds or the iterator will still return exceeds
  \<^verbatim>\<open>demand_duration\<close>.
\<close>

definition has_overshoot :: "Scenario \<Rightarrow> sim \<Rightarrow> bool" where
  "has_overshoot sc s =
     (fl_gt (EL0 s) (Fin (demand_duration sc))
      \<or> (\<exists>y\<in>set (Ts_it s). fl_gt y (Fin (demand_duration sc))))"

text \<open>
  The state of the run with \<^verbatim>\<open>demand_duration = 5/2\<close>, \<^verbatim>\<open>t0 = 0\<close>, rates 1 and every
  uniform draw \<open>exp (- 1)\<close> after its first arrival: both slots hold the instant 2.
\<close>

definition tie_state :: sim where
  "tie_state = \<lparr>times_v = [Fin 0, Fin 1], queues = [0, 1], As = [Fin 1], Ds = [],
      t_v = Fin 1, NA = 1, ND = 0, n_v = 1, EL0 = Fin 2, EL1 = Fin 2,
      Ts_it = [Fin 3], rk = 7\<rparr>"

section \<open>Predicates used in the proofs\<close>

text \<open>A value that is neither \<open>NaN\<close> nor below zero.\<close>

fun nonneg :: "pyfloat \<Rightarrow> bool" where
  "nonneg (Fin x) = (0 \<le> x)"
| "nonneg PInf = True"
| "nonneg NInf = False"
| "nonneg NaN = False"

text \<open>
  Rates above zero, a travel time that is not negative, and uniform draws in \<open>[0, 1)\<close>, the
  range of \<^verbatim>\<open>np.random.rand()\<close>.
\<close>

definition valid_draws :: "Scenario \<Rightarrow> rand_source \<Rightarrow> bool" where
  "valid_draws sc rng \<longleftrightarrow>
     0 < lam sc \<and> 0 < mu sc \<and> 0 \<le> t0 sc \<and> (\<forall>i. 0 \<le> rng i \<and> rng i < 1)"

text \<open>What the four output lists and the counters record, whatever the values are.\<close>

definition book_inv :: "sim \<Rightarrow> bool" where
  "book_inv s \<longleftrightarrow>
     length (times_v s) = length (queues s) \<and> times_v s \<noteq> [] \<and> queues s \<noteq> [] \<and>
     hd (times_v s) = Fin 0 \<and> hd (queues s) = 0 \<and>
     last (queues s) = n_v s \<and>
     int (length (As s)) = n_v s + int (length (Ds s))"

text \<open>
  The order of the clock, the two slots and the instants not yet pulled, at the top of the
  main loop of a run with valid draws.
\<close>

definition order_inv :: "Scenario \<Rightarrow> sim \<Rightarrow> bool" where
  "order_inv sc s \<longleftrightarrow>
     0 \<le> n_v s \<and> (\<forall>q\<in>set (queues s). 0 \<le> q) \<and>
     sorted_wrt fl_le (times_v s) \<and> (\<forall>x\<in>set (times_v s). fl_le x (t_v s)) \<and>
     nonneg (t_v s) \<and> nonneg (EL0 s) \<and> nonneg (EL1 s) \<and>
     fl_le (t_v s) (EL1 s) \<and>
     (fl_le (t_v s) (EL0 s) \<or> fl_gt (EL0 s) (Fin (demand_duration sc))) \<and>
     sorted_wrt fl_le (EL0 s # Ts_it s) \<and> (\<forall>x\<in>set (Ts_it s). nonneg x) \<and>
     (n_v s = 0 \<longrightarrow> fl_le (Fin (demand_duration sc)) (EL1 s))"

text \<open>The same at the top of the inner drain loop.\<close>

definition drain_inv :: "Scenario \<Rightarrow> sim \<Rightarrow> bool" where
  "drain_inv sc s \<longleftrightarrow>
     order_inv sc s \<and> fl_gt (EL0 s) (Fin (demand_duration sc))
     \<and> fl_le (Fin (demand_duration sc)) (EL1 s) \<and> t_v s = EL1 s"



text \<open>
  The queue length is not negative, and the departure slot is plus infinity when it is 0.
\<close>

definition ND_idle_inv :: "sim \<Rightarrow> bool" where
  "ND_idle_inv s \<longleftrightarrow> 0 \<le> n_v s \<and> (n_v s = 0 \<longrightarrow> EL1 s = PInf)"

text \<open>
  The run with \<^verbatim>\<open>demand_duration = 3/2\<close>, \<^verbatim>\<open>t0 = 0\<close>, rates 1 and every uniform draw
  \<open>exp (- 1)\<close>: its state after the first pass (one arrival, departure due at 2, after the
  horizon) and after the second pass (the drain).
\<close>

definition late_state :: sim where
  "late_state = \<lparr>times_v = [Fin 0, Fin 1], queues = [0, 1], As = [Fin 1], Ds = [],
      t_v = Fin 1, NA = 1, ND = 0, n_v = 1, EL0 = Fin 2, EL1 = Fin 2,
      Ts_it = [], rk = 5\<rparr>"

definition drained_state :: sim where
  "drained_state = \<lparr>times_v = [Fin 0, Fin 1, Fin 2], queues = [0, 1, 0], As = [Fin 1],
      Ds = [Fin 2], t_v = Fin 2, NA = 1, ND = 1, n_v = 0, EL0 = Fin 2, EL1 = Fin 2,
      Ts_it = [], rk = 5\<rparr>"

text \<open>
  The run with \<^verbatim>\<open>demand_duration = 5/2\<close>, \<^verbatim>\<open>t0 = 0\<close>, \<^verbatim>\<open>lam = 1\<close>, \<^verbatim>\<open>mu = 2\<close> and
  every uniform draw \<open>exp (- 1)\<close>: its state after the first pass (one arrival, departure
  due at 3/2) and after the second pass (that departure).
\<close>

definition busy_state :: sim where
  "busy_state = \<lparr>times_v = [Fin 0, Fin 1], queues = [0, 1], As = [Fin 1], Ds = [],
      t_v = Fin 1, NA = 1, ND = 0, n_v = 1, EL0 = Fin 2, EL1 = Fin (3/2),
      Ts_it = [Fin 3], rk = 7\<rparr>"

definition idle_state :: sim where
  "idle_state = \<lparr>times_v = [Fin 0, Fin 1, Fin (3/2)], queues = [0, 1, 0], As = [Fin 1],
      Ds = [Fin (3/2)], t_v = Fin (3/2), NA = 1, ND = 1, n_v = 0, EL0 = Fin 2, EL1 = PInf,
      Ts_it = [Fin 3], rk = 7\<rparr>"

section \<open>Comparisons and sums\<close>

lemma fl_not_lt: "a \<noteq> NaN \<Longrightarrow> b \<noteq> NaN \<Longrightarrow> (\<not> fl_lt a b) = fl_le b a"
  by (cases a; cases b) auto

lemma fl_lt_not_NaN: "fl_lt a b \<Longrightarrow> a \<noteq> NaN \<and> b \<noteq> NaN"
  by (cases a; cases b) auto

lemma fl_le_not_NaN: "fl_le a b \<Longrightarrow> a \<noteq> NaN \<and> b \<noteq> NaN"
  by (cases a; cases b) auto

lemma fl_add_not_NaN: "fl_add a b \<noteq> NaN \<Longrightarrow> a \<noteq> NaN \<and> b \<noteq> NaN"
  by (cases a; cases b) auto

lemma fl_add_Fin_not_NaN: "a \<noteq> NaN \<Longrightarrow> fl_add a (Fin x) \<noteq> NaN"
  by (cases a) auto

lemma fl_le_lt_False: "fl_le a b \<Longrightarrow> fl_lt b a \<Longrightarrow> False"
  by (cases a; cases b) auto

lemma fl_lt_le_lt_False: "fl_lt d z \<Longrightarrow> fl_le y d \<Longrightarrow> fl_lt z y \<Longrightarrow> False"
  by (cases d; cases z; cases y) auto

lemma fl_eq_le: "fl_eq a b \<Longrightarrow> fl_le a b"
  by (cases a; cases b) auto

section \<open>The exponential draw\<close>






section \<open>Runs used as examples\<close>

text \<open>
  With \<^verbatim>\<open>t0 = 0\<close>, \<^verbatim>\<open>lam = 1\<close> and every uniform draw equal to \<open>exp (- 1)\<close>, each
  exponential draw is 1 and the arrival instants are 1, 2, 3, ...
\<close>

lemma Scenario_init_sel [simp]:
  "demand_duration (Scenario_init a b c d) = a" "t0 (Scenario_init a b c d) = b"
  "lam (Scenario_init a b c d) = c" "mu (Scenario_init a b c d) = d"
  by (simp_all add: Scenario_init_def)

lemma demo_next_arrival:
  "next_arrival (Scenario_init dd 0 1 m) (\<lambda>_. exp (- 1)) (Fin x) k
     = (Fin (x + 1), Fin (x + 1), Suc (Suc k))"
  by (simp add: next_arrival_def generate_def travel_def exponential_rng_def np_log_def
        Let_def)

lemma demo_depart: "depart 1 (\<lambda>_. exp (- 1)) k = (Fin 1, Suc k)"
  by (simp add: depart_def exponential_rng_def np_log_def)

lemma demo_pregen_two:
  "pregen (Scenario_init (3/2) 0 1 1) (\<lambda>_. exp (- 1)) (Fin 0) [] 0
     = Some ([Fin 1, Fin 2], 4)"
  apply (subst pregen.simps)
  apply (simp add: demo_next_arrival fl_gt_def)
  apply (subst pregen.simps)
  apply (simp add: demo_next_arrival fl_gt_def)
  done



lemma demo_tie_reached:
  "passes 1 (Scenario_init (5/2) 0 1 1) (\<lambda>_. exp (- 1)) (init_sim (Fin 1) [Fin 2, Fin 3] 6)
     = Continue tie_state"
  by (simp add: step_def phase_of_def init_sim_def phase_A_def schedule_departure_def
        demo_depart tie_state_def Let_def)

section \<open>Pre-generation\<close>

lemma na_tg: "fst (next_arrival sc rng g k) = fl_add g (fst (exponential_rng (lam sc) rng k))"
  by (simp add: next_arrival_def generate_def Let_def)

lemma na_ta:
  "fst (snd (next_arrival sc rng g k)) =
     fl_add (fst (next_arrival sc rng g k)) (Fin (t0 sc * rng (Suc k)))"
  by (simp add: next_arrival_def generate_def travel_def exponential_rng_def Let_def)


lemma pregen_post:
  assumes "pregen sc rng g acc k = Some r"
  shows "g \<noteq> NaN \<and>
         (\<exists>ys z. fst r = acc @ ys @ [z]
            \<and> (\<forall>y\<in>set ys. fl_le y (Fin (demand_duration sc)))
            \<and> fl_gt z (Fin (demand_duration sc)))"
  using assms
proof (induction sc rng g acc k r rule: pregen.raw_induct[rotated 1, consumes 1])
  case (1 pregen sc rng g acc k r)
  let ?tg = "fst (next_arrival sc rng g k)"
  let ?ta = "fst (snd (next_arrival sc rng g k))"
  let ?dd = "Fin (demand_duration sc)"
  show ?case
  proof (cases "fl_gt ?ta ?dd")
    case True
    then have r: "fst r = acc @ [] @ [?ta]" using 1(2) by auto
    from True have "?ta \<noteq> NaN" using fl_lt_not_NaN by (auto simp: fl_gt_def)
    then have "?tg \<noteq> NaN" using fl_add_not_NaN by (metis na_ta)
    then have "g \<noteq> NaN" using fl_add_not_NaN by (metis na_tg)
    with r True show ?thesis by (intro conjI exI[of _ "[]"] exI[of _ ?ta]) auto
  next
    case False
    then have rec: "pregen sc rng ?tg (acc @ [?ta]) (snd (snd (next_arrival sc rng g k))) = Some r"
      using 1(2) by simp
    from 1(1)[OF rec] obtain ys z where
      tg: "?tg \<noteq> NaN" and r: "fst r = (acc @ [?ta]) @ ys @ [z]"
      and ys: "\<forall>y\<in>set ys. fl_le y ?dd" and z: "fl_gt z ?dd" by blast
    from tg have g: "g \<noteq> NaN" using fl_add_not_NaN by (metis na_tg)
    from tg have "?ta \<noteq> NaN" using fl_add_Fin_not_NaN by (metis na_ta)
    with False have "fl_le ?ta ?dd" by (simp add: fl_gt_def fl_not_lt)
    with ys have "\<forall>y\<in>set (?ta # ys). fl_le y ?dd" by simp
    with r z g show ?thesis
      by (intro conjI exI[of _ "?ta # ys"] exI[of _ z]) auto
  qed
qed

lemma set_insort_pyfloat [simp]: "set (insort_pyfloat x xs) = insert x (set xs)"
  by (induction xs) auto

lemma set_sort_pyfloat [simp]: "set (sort_pyfloat xs) = set xs"
  by (induction xs) auto

lemma insort_before_last:
  "\<not> fl_lt z y \<Longrightarrow> insort_pyfloat y (xs @ [z]) = insort_pyfloat y xs @ [z]"
  by (induction xs) auto

lemma sort_overshoot_last:
  "\<forall>y\<in>set ys. \<not> fl_lt z y \<Longrightarrow> sort_pyfloat (ys @ [z]) = sort_pyfloat ys @ [z]"
  by (induction ys) (auto simp: insort_before_last)

text \<open>
  C1, as stated, fails: with \<^verbatim>\<open>demand_duration = 3/2\<close> the loop returns the instants 1 and 2,
  and 2, which exceeds \<^verbatim>\<open>demand_duration\<close>, is in the sorted list.
\<close>

theorem pregen_overshoot_kept:
  "pregen (Scenario_init (3/2) 0 1 1) (\<lambda>_. exp (- 1)) (Fin 0) [] 0
     = Some ([Fin 1, Fin 2], 4)
   \<and> sort_pyfloat [Fin 1, Fin 2] = [Fin 1, Fin 2]
   \<and> \<not> fl_le (Fin 2) (Fin (demand_duration (Scenario_init (3/2) 0 1 1)))"
  by (simp add: demo_pregen_two)

text \<open>
  C1, amended: when pre-generation returns, the sorted list is a list of instants that are
  at most \<^verbatim>\<open>demand_duration\<close>, followed by exactly one instant that exceeds it: the
  overshooting instant is kept, as the last element.
\<close>

theorem pregen_overshoot_is_last:
  assumes "pregen sc rng (Fin 0) [] 0 = Some (Ts, k)"
  shows "\<exists>ys z. sort_pyfloat Ts = ys @ [z]
           \<and> (\<forall>y\<in>set ys. fl_le y (Fin (demand_duration sc)))
           \<and> fl_gt z (Fin (demand_duration sc))"
proof -
  from pregen_post[OF assms] obtain ys z where
    Ts: "Ts = ys @ [z]" and ys: "\<forall>y\<in>set ys. fl_le y (Fin (demand_duration sc))"
    and z: "fl_gt z (Fin (demand_duration sc))" by auto
  have "\<forall>y\<in>set ys. \<not> fl_lt z y"
  proof
    fix y assume "y \<in> set ys"
    with ys have "fl_le y (Fin (demand_duration sc))" by simp
    with z show "\<not> fl_lt z y"
      using fl_lt_le_lt_False by (auto simp: fl_gt_def)
  qed
  then have "sort_pyfloat Ts = sort_pyfloat ys @ [z]" using Ts sort_overshoot_last by simp
  with ys z show ?thesis by (intro exI[of _ "sort_pyfloat ys"] exI[of _ z]) simp
qed

theorem pregen_overshoot_is_last_witness:
  "pregen (Scenario_init (3/2) 0 1 1) (\<lambda>_. exp (- 1)) (Fin 0) [] 0
     = Some ([Fin 1, Fin 2], 4)
   \<and> (\<exists>ys z. sort_pyfloat [Fin 1, Fin 2] = ys @ [z]
           \<and> (\<forall>y\<in>set ys. fl_le y (Fin (demand_duration (Scenario_init (3/2) 0 1 1))))
           \<and> fl_gt z (Fin (demand_duration (Scenario_init (3/2) 0 1 1))))"
  using pregen_overshoot_is_last[OF demo_pregen_two] demo_pregen_two by simp

section \<open>The iterator is never exhausted\<close>

lemma drain_arrivals [simp]:
  "EL0 (drain sc rng s) = EL0 s" "Ts_it (drain sc rng s) = Ts_it s"
  by (induction sc rng s rule: drain.induct;
      subst drain.simps; simp add: depart_now_def schedule_departure_def)+

lemma step_overshoot:
  "has_overshoot sc s \<Longrightarrow> step sc rng s = Continue s' \<Longrightarrow> has_overshoot sc s'"
  by (auto simp: step_def phase_of_def phase_A_def phase_B_def phase_C_def has_overshoot_def
        depart_now_def schedule_departure_def Let_def fl_gt_def
      split: if_splits list.splits phase.splits dest: fl_le_lt_False)

lemma step_no_raise: "has_overshoot sc s \<Longrightarrow> step sc rng s \<noteq> Raise e"
  by (auto simp: step_def phase_of_def phase_A_def phase_B_def phase_C_def has_overshoot_def
        Let_def fl_gt_def
      split: if_splits list.splits phase.splits dest: fl_le_lt_False)

lemma main_loop_no_raise:
  assumes "main_loop sc rng s = Some r" "has_overshoot sc s"
  shows "r \<noteq> Inl e"
  using assms
proof (induction sc rng s r rule: main_loop.raw_induct[rotated 1, consumes 1])
  case (1 main_loop sc rng s r)
  show ?case
  proof (cases "step sc rng s")
    case (Continue s')
    with 1 show ?thesis using step_overshoot by auto
  next
    case (Break s')
    with 1 show ?thesis by auto
  next
    case (Raise e')
    with 1 show ?thesis using step_no_raise by auto
  qed
qed

lemma start_overshoot:
  assumes "start sc rng = Some r"
  shows "\<exists>s0. r = Inr s0 \<and> has_overshoot sc s0"
proof -
  from assms obtain Ts k where pg: "pregen sc rng (Fin 0) [] 0 = Some (Ts, k)"
    by (auto simp: start_def split: option.splits)
  from pregen_post[OF pg] obtain ys z where "Ts = ys @ [z]" "fl_gt z (Fin (demand_duration sc))"
    by auto
  then have z: "z \<in> set Ts" "fl_gt z (Fin (demand_duration sc))" by auto
  then have "z \<in> set (sort_pyfloat Ts)" by simp
  then obtain T0 rest where s: "sort_pyfloat Ts = T0 # rest"
    by (cases "sort_pyfloat Ts") auto
  with z have "z = T0 \<or> z \<in> set rest" by (metis set_ConsD set_sort_pyfloat)
  with z s pg assms show ?thesis
    by (auto simp: start_def has_overshoot_def init_sim_def)
qed

lemma simulate_no_error: "simulate sc rng \<noteq> Some (Inl e)"
proof
  assume a: "simulate sc rng = Some (Inl e)"
  then obtain r where st: "start sc rng = Some r"
    by (auto simp: simulate_def split: option.splits)
  from start_overshoot[OF st] obtain s0 where s0: "r = Inr s0" "has_overshoot sc s0" by blast
  with a st obtain r' where ml: "main_loop sc rng s0 = Some r'"
    by (auto simp: simulate_def split: option.splits)
  from main_loop_no_raise[OF ml s0(2)] have "r' \<noteq> Inl e" .
  with a st s0 ml show False
    by (auto simp: simulate_def split: option.splits sum.splits)
qed

text \<open>
  C10: no \<^verbatim>\<open>StopIteration\<close> escapes \<^verbatim>\<open>simulate\<close>, neither from the first \<^verbatim>\<open>next(Ts)\<close>
  nor from the one of the arrival branch, for every scenario and every sequence of draws.
\<close>

theorem simulate_no_StopIteration:
  "start sc rng \<noteq> Some (Inl StopIteration) \<and> simulate sc rng \<noteq> Some (Inl StopIteration)"
  using start_overshoot[of sc rng "Inl StopIteration"] simulate_no_error[of sc rng StopIteration]
  by auto

theorem simulate_no_StopIteration_witness:
  "start (Scenario_init (5/2) 0 1 1) (\<lambda>_. exp (- 1)) \<noteq> Some (Inl StopIteration)
   \<and> simulate (Scenario_init (5/2) 0 1 1) (\<lambda>_. exp (- 1)) \<noteq> Some (Inl StopIteration)"
  using simulate_no_StopIteration[of "Scenario_init (5/2) 0 1 1" "\<lambda>_. exp (- 1)"] by simp

section \<open>The tie-break\<close>

text \<open>
  C5: when the two slots are equal and the arrival slot is at most \<^verbatim>\<open>demand_duration\<close>,
  the pass takes the arrival branch: a pass that continues has incremented the queue length
  and recorded an arrival and no departure, and the pass continues whenever the iterator
  has an element left.
\<close>

theorem tie_break_arrival_first:
  assumes "fl_eq (EL0 s) (EL1 s)" "fl_le (EL0 s) (Fin (demand_duration sc))"
  shows "phase_of sc s = PhaseA \<and> step sc rng s = phase_A sc rng s
         \<and> (\<forall>s'. step sc rng s = Continue s' \<longrightarrow>
               n_v s' = n_v s + 1 \<and> queues s' = queues s @ [n_v s + 1]
               \<and> As s' = As s @ [EL0 s] \<and> Ds s' = Ds s)
         \<and> (Ts_it s \<noteq> [] \<longrightarrow> (\<exists>s'. step sc rng s = Continue s'))"
proof -
  from assms have A: "phase_of sc s = PhaseA" by (simp add: phase_of_def fl_eq_le)
  then have st: "step sc rng s = phase_A sc rng s" by (simp add: step_def)
  show ?thesis using A st
    by (auto simp: phase_A_def schedule_departure_def Let_def split: list.splits if_splits)
qed

theorem tie_break_arrival_first_witness:
  "fl_eq (EL0 tie_state) (EL1 tie_state)
   \<and> fl_le (EL0 tie_state) (Fin (demand_duration (Scenario_init (5/2) 0 1 1)))
   \<and> phase_of (Scenario_init (5/2) 0 1 1) tie_state = PhaseA
   \<and> (\<exists>s'. step (Scenario_init (5/2) 0 1 1) (\<lambda>_. exp (- 1)) tie_state = Continue s'
           \<and> n_v s' = 2)"
proof -
  have h1: "fl_eq (EL0 tie_state) (EL1 tie_state)" by (simp add: tie_state_def)
  have h2: "fl_le (EL0 tie_state) (Fin (demand_duration (Scenario_init (5/2) 0 1 1)))"
    by (simp add: tie_state_def)
  have h3: "Ts_it tie_state \<noteq> []" "n_v tie_state = 1" by (simp_all add: tie_state_def)
  note c = tie_break_arrival_first[OF h1 h2, of "\<lambda>_. exp (- 1)"]
  from c h3 obtain s' where
    s': "step (Scenario_init (5/2) 0 1 1) (\<lambda>_. exp (- 1)) tie_state = Continue s'"
    by blast
  with c h3 have "n_v s' = 2" by simp
  with c s' h1 h2 show ?thesis by blast
qed

section \<open>The empty arrival stream\<close>

lemma first_overshoot_run:
  assumes "fl_gt (fst (snd (next_arrival sc rng (Fin 0) 0))) (Fin (demand_duration sc))"
  shows "simulate sc rng = Some (Inr ([Fin 0], [0], [], []))"
proof -
  let ?ta = "fst (snd (next_arrival sc rng (Fin 0) 0))"
  have pg: "pregen sc rng (Fin 0) [] 0 = Some ([?ta], snd (snd (next_arrival sc rng (Fin 0) 0)))"
    using assms by (subst pregen.simps) simp
  have st: "start sc rng = Some (Inr (init_sim ?ta [] (snd (snd (next_arrival sc rng (Fin 0) 0)))))"
    by (simp add: start_def pg)
  let ?s0 = "init_sim ?ta [] (snd (snd (next_arrival sc rng (Fin 0) 0)))"
  have nle: "\<not> fl_le ?ta (Fin (demand_duration sc))"
    using assms fl_le_lt_False by (auto simp: fl_gt_def)
  have "step sc rng ?s0 = Break ?s0"
    using assms nle by (simp add: step_def phase_of_def init_sim_def phase_C_def)
  then have "main_loop sc rng ?s0 = Some (Inr ?s0)"
    by (subst main_loop.simps) simp
  then show ?thesis by (simp add: simulate_def st) (simp add: init_sim_def)
qed

text \<open>
  C8: if the first generated arrival instant exceeds \<^verbatim>\<open>demand_duration\<close>, \<^verbatim>\<open>simulate\<close>
  returns \<^verbatim>\<open>times = [0]\<close>, \<^verbatim>\<open>queues = [0]\<close> and no arrival or departure time.
\<close>

theorem zero_horizon_run:
  assumes "fl_gt (fst (snd (next_arrival sc rng (Fin 0) 0))) (Fin (demand_duration sc))"
  shows "simulate sc rng = Some (Inr ([Fin 0], [0], [], []))"
  using assms by (rule first_overshoot_run)

theorem zero_horizon_run_witness:
  "fl_gt (fst (snd (next_arrival (Scenario_init (1/2) 0 1 1) (\<lambda>_. exp (- 1)) (Fin 0) 0)))
         (Fin (demand_duration (Scenario_init (1/2) 0 1 1)))
   \<and> simulate (Scenario_init (1/2) 0 1 1) (\<lambda>_. exp (- 1)) = Some (Inr ([Fin 0], [0], [], []))"
proof -
  have h: "fl_gt (fst (snd (next_arrival (Scenario_init (1/2) 0 1 1) (\<lambda>_. exp (- 1)) (Fin 0) 0)))
         (Fin (demand_duration (Scenario_init (1/2) 0 1 1)))"
    by (simp add: demo_next_arrival fl_gt_def)
  from zero_horizon_run[OF h] h show ?thesis by simp
qed

section \<open>What the lists record\<close>


lemma book_schedule [simp]: "book_inv (schedule_departure sc rng s) = book_inv s"
  by (simp add: book_inv_def schedule_departure_def)




section \<open>More on comparisons\<close>







lemma fl_not_le: "a \<noteq> NaN \<Longrightarrow> b \<noteq> NaN \<Longrightarrow> (\<not> fl_le a b) = fl_lt b a"
  by (cases a; cases b) auto

lemma fl_le_nonneg: "nonneg a \<Longrightarrow> fl_le a b \<Longrightarrow> nonneg b"
  by (cases a; cases b) auto





lemma fl_lt_irrefl: "\<not> fl_lt a a"
  by (cases a) auto



lemma sorted_wrt_snoc:
  "sorted_wrt fl_le xs \<Longrightarrow> \<forall>x\<in>set xs. fl_le x y \<Longrightarrow> sorted_wrt fl_le (xs @ [y])"
  by (simp add: sorted_wrt_append)

section \<open>The conditions of the three branches\<close>


lemma phase_B_imp:
  "phase_of sc s = PhaseB \<Longrightarrow>
     fl_lt (EL1 s) (EL0 s) \<and> fl_lt (EL1 s) (Fin (demand_duration sc))"
  by (simp add: phase_of_def split: if_splits)



section \<open>Each pass keeps the order\<close>


lemma fl_le_PInf [simp]: "fl_le x PInf = (x \<noteq> NaN)"
  by (cases x) auto




lemma drain_inv_order: "drain_inv sc s \<Longrightarrow> order_inv sc s"
  by (simp add: drain_inv_def)




lemma drain_Ts_it [simp]: "Ts_it (drain sc rng s) = Ts_it s"
  by (induction sc rng s rule: drain.induct; subst drain.simps;
      simp add: depart_now_def schedule_departure_def)


section \<open>The state at the entry of the main loop\<close>






section \<open>The main loop: result and termination\<close>



section \<open>Termination of pre-generation\<close>






section \<open>Draws that never leave pre-generation\<close>







lemma demo_depart_rate: "0 < m \<or> m < 0 \<Longrightarrow> depart m (\<lambda>_. exp (- 1)) k = (Fin (1 / m), Suc k)"
  by (auto simp: depart_def exponential_rng_def np_log_def)



lemma demo_valid: "valid_draws (Scenario_init (5/2) 0 1 1) (\<lambda>_. exp (- 1))"
  by (simp add: valid_draws_def)

section \<open>Full drain and the shape of the trajectory\<close>





section \<open>Termination\<close>




section \<open>The departure slot of an empty system\<close>

lemma demo_start_two:
  "start (Scenario_init (3/2) 0 1 1) (\<lambda>_. exp (- 1)) = Some (Inr (init_sim (Fin 1) [Fin 2] 4))"
  by (simp add: start_def demo_pregen_two)

lemma demo_late_step:
  "step (Scenario_init (3/2) 0 1 1) (\<lambda>_. exp (- 1)) (init_sim (Fin 1) [Fin 2] 4)
     = Continue late_state"
  by (simp add: step_def phase_of_def init_sim_def phase_A_def schedule_departure_def
        demo_depart late_state_def Let_def)

lemma demo_late_phase: "phase_of (Scenario_init (3/2) 0 1 1) late_state = PhaseC"
  by (simp add: phase_of_def late_state_def fl_gt_def)

lemma demo_drained_step:
  "step (Scenario_init (3/2) 0 1 1) (\<lambda>_. exp (- 1)) late_state = Continue drained_state"
  by (simp add: step_def demo_late_phase phase_C_def)
     (simp add: late_state_def drained_state_def depart_now_def drain.simps)

text \<open>
  C2, as stated, fails: in the run with \<^verbatim>\<open>demand_duration = 3/2\<close> the second pass drains
  the queue in the third branch, and the loop condition is evaluated again with queue
  length 0 and the departure slot still at 2.
\<close>

theorem ND_idle_broken_by_drain:
  "start (Scenario_init (3/2) 0 1 1) (\<lambda>_. exp (- 1)) = Some (Inr (init_sim (Fin 1) [Fin 2] 4))
   \<and> passes 2 (Scenario_init (3/2) 0 1 1) (\<lambda>_. exp (- 1)) (init_sim (Fin 1) [Fin 2] 4)
       = Continue drained_state
   \<and> n_v drained_state = 0 \<and> EL1 drained_state = Fin 2"
  by (simp add: demo_start_two numeral_2_eq_2 demo_late_step demo_drained_step)
     (simp add: drained_state_def)

lemma fl_lt_PInf [simp]: "fl_lt PInf y = False"
  by (cases y) auto

lemma ND_idle_phase_A:
  "ND_idle_inv s \<Longrightarrow> phase_A sc rng s = Continue s' \<Longrightarrow> ND_idle_inv s'"
  by (auto simp: ND_idle_inv_def phase_A_def schedule_departure_def Let_def
      split: list.splits if_splits)

lemma phase_B_idle:
  "phase_B sc rng s = Continue s' \<Longrightarrow> n_v s' = n_v s - 1 \<and> (n_v s' \<le> 0 \<longrightarrow> EL1 s' = PInf)"
  by (auto simp: phase_B_def schedule_departure_def depart_now_def Let_def split: if_splits)

lemma ND_idle_phase_B:
  assumes "ND_idle_inv s" "phase_of sc s = PhaseB" "phase_B sc rng s = Continue s'"
  shows "ND_idle_inv s'"
proof -
  from assms(2) have "fl_lt (EL1 s) (EL0 s)" using phase_B_imp by blast
  then have "EL1 s \<noteq> PInf" by auto
  with assms(1) have "1 \<le> n_v s" by (auto simp: ND_idle_inv_def)
  with phase_B_idle[OF assms(3)] show ?thesis by (auto simp: ND_idle_inv_def)
qed

lemma ND_idle_step:
  assumes "ND_idle_inv s" "phase_of sc s \<noteq> PhaseC" "step sc rng s = Continue s'"
  shows "ND_idle_inv s'"
proof (cases "phase_of sc s")
  case PhaseA
  with assms show ?thesis using ND_idle_phase_A by (simp add: step_def)
next
  case PhaseB
  with assms show ?thesis using ND_idle_phase_B by (simp add: step_def)
next
  case PhaseC
  with assms show ?thesis by simp
next
  case NoPhase
  with assms show ?thesis by (simp add: step_def)
qed

text \<open>
  C2, amended: the invariant (with \<open>n \<ge> 0\<close>) holds when the main loop is entered and
  after every pass that does not take the third branch; in particular a departure of the
  second branch that brings the queue length to 0 sets the departure slot to plus infinity.
\<close>

theorem ND_idle_preserved_outside_drain:
  "ND_idle_inv (init_sim T0 rest k)
   \<and> (ND_idle_inv s \<and> phase_of sc s \<noteq> PhaseC \<and> step sc rng s = Continue s'
        \<longrightarrow> ND_idle_inv s')
   \<and> (phase_of sc s = PhaseB \<and> step sc rng s = Continue s' \<and> n_v s' = 0
        \<longrightarrow> EL1 s' = PInf)"
proof (intro conjI impI)
  show "ND_idle_inv (init_sim T0 rest k)" by (simp add: ND_idle_inv_def init_sim_def)
next
  assume "ND_idle_inv s \<and> phase_of sc s \<noteq> PhaseC \<and> step sc rng s = Continue s'"
  then show "ND_idle_inv s'" using ND_idle_step by blast
next
  assume a: "phase_of sc s = PhaseB \<and> step sc rng s = Continue s' \<and> n_v s' = 0"
  then have "phase_B sc rng s = Continue s'" by (auto simp: step_def)
  from phase_B_idle[OF this] a show "EL1 s' = PInf" by simp
qed

lemma demo_busy_step:
  "step (Scenario_init (5/2) 0 1 2) (\<lambda>_. exp (- 1)) busy_state = Continue idle_state"
  by (simp add: step_def phase_of_def phase_B_def busy_state_def idle_state_def depart_now_def
        Let_def)

lemma demo_busy_phase: "phase_of (Scenario_init (5/2) 0 1 2) busy_state = PhaseB"
  by (simp add: phase_of_def busy_state_def)

text \<open>The departure of the second pass of the run with \<^verbatim>\<open>mu = 2\<close>.\<close>

theorem ND_idle_preserved_outside_drain_witness:
  "ND_idle_inv busy_state \<and> phase_of (Scenario_init (5/2) 0 1 2) busy_state = PhaseB
   \<and> step (Scenario_init (5/2) 0 1 2) (\<lambda>_. exp (- 1)) busy_state = Continue idle_state
   \<and> n_v idle_state = 0 \<and> ND_idle_inv idle_state \<and> EL1 idle_state = PInf"
proof -
  have b: "ND_idle_inv busy_state" by (simp add: ND_idle_inv_def busy_state_def)
  have n: "n_v idle_state = 0" by (simp add: idle_state_def)
  note c = ND_idle_preserved_outside_drain[of "Fin 1" "[Fin 2]" 4 busy_state
       "Scenario_init (5/2) 0 1 2" "\<lambda>_. exp (- 1)" idle_state]
  from c b n demo_busy_step demo_busy_phase
  have "ND_idle_inv idle_state" "EL1 idle_state = PInf" by simp_all
  with b n demo_busy_step demo_busy_phase show ?thesis by simp
qed

section \<open>Parameters are not checked\<close>








end
